theory Spec2Isabelle
  imports Main "HOL-Library.Word" "HOL-Library.Multiset"
begin

unbundle bit_operations_syntax

section \<open>Machine words\<close>

type_synonym u8 = "8 word"
type_synonym u16 = "16 word"
type_synonym u32 = "32 word"
type_synonym u64 = "64 word"
type_synonym u128 = "128 word"

section \<open>Hash128: MurmurHash3-x64-128 (include/MurmurHash3.h)\<close>

text \<open>\<^verbatim>\<open>rotl64(x, r) = (x << r) | (x >> (64 - r))\<close>; only called with \<open>r\<close> in 27, 31, 33.\<close>

definition rotl64 :: "u64 \<Rightarrow> nat \<Rightarrow> u64" where
  "rotl64 x r = push_bit r x OR drop_bit (64 - r) x"

definition fmix64 :: "u64 \<Rightarrow> u64" where
  "fmix64 k0 =
    (let k = k0 XOR drop_bit 33 k0;
         k = k * 0xff51afd7ed558ccd;
         k = k XOR drop_bit 33 k;
         k = k * 0xc4ceb9fe1a85ec53;
         k = k XOR drop_bit 33 k
     in k)"

definition c1 :: u64 where "c1 = 0x87c37b91114253d5"
definition c2 :: u64 where "c2 = 0x4cf5ad432745937f"

text \<open>The three statements \<^verbatim>\<open>k1 *= c1; k1 = ROTL64(k1, 31); k1 *= c2;\<close> and their
  \<open>k2\<close> counterpart occur in the body loop, in the tail switch and in every overload.\<close>

definition mix_k1 :: "u64 \<Rightarrow> u64" where
  "mix_k1 k = (let k1 = k * c1; k1 = rotl64 k1 31; k1 = k1 * c2 in k1)"

definition mix_k2 :: "u64 \<Rightarrow> u64" where
  "mix_k2 k = (let k2 = k * c2; k2 = rotl64 k2 33; k2 = k2 * c1 in k2)"

text \<open>The finalization block shared by all routines, from \<^verbatim>\<open>h1 ^= lenBytes\<close> to the
  returned \<^verbatim>\<open>h1 | (static_cast<__uint128_t>(h2) << 64)\<close>.\<close>

definition finalization :: "u64 \<Rightarrow> u64 \<Rightarrow> u64 \<Rightarrow> u128" where
  "finalization lenBytes h1_in h2_in =
    (let h1 = h1_in XOR lenBytes;
         h2 = h2_in XOR lenBytes;
         h1 = h1 + h2;
         h2 = h2 + h1;
         h1 = fmix64 h1;
         h2 = fmix64 h2;
         h1 = h1 + h2;
         h2 = h2 + h1
     in ucast h1 OR push_bit 64 (ucast h2))"

text \<open>\<open>xor_bytes tail base n k\<close> runs the statements
  \<^verbatim>\<open>k ^= static_cast<uint64_t>(tail[base + i]) << (8 * i)\<close> for \<open>i = n - 1\<close> down to \<open>0\<close>,
  which is the order in which the falling-through cases of the tail switch execute.
  With \<open>n = 8\<close> it is also the little-endian 64-bit load of the body loop
  (\<^verbatim>\<open>*reinterpret_cast<const uint64_t*>(data + off)\<close> on the x86-64 target that
  include/simd.hpp requires).\<close>

fun xor_bytes :: "u8 list \<Rightarrow> nat \<Rightarrow> nat \<Rightarrow> u64 \<Rightarrow> u64" where
  "xor_bytes tail base 0 k = k"
| "xor_bytes tail base (Suc i) k =
     xor_bytes tail base i (k XOR push_bit (8 * i) (ucast (tail ! (base + i))))"

definition getblock64 :: "u8 list \<Rightarrow> nat \<Rightarrow> u64" where
  "getblock64 data off = xor_bytes data off 8 0"

definition body_block :: "u8 list \<Rightarrow> nat \<Rightarrow> u64 \<times> u64 \<Rightarrow> u64 \<times> u64" where
  "body_block data i h =
    (let h1 = fst h; h2 = snd h;
         k1 = getblock64 data ((i * 2 + 0) * 8);
         k2 = getblock64 data ((i * 2 + 1) * 8);
         k1 = mix_k1 k1;
         h1 = h1 XOR k1;
         h1 = rotl64 h1 27;
         h1 = h1 + h2;
         h1 = h1 * 5 + 0x52dce729;
         k2 = mix_k2 k2;
         h2 = h2 XOR k2;
         h2 = rotl64 h2 31;
         h2 = h2 + h1;
         h2 = h2 * 5 + 0x38495ab5
     in (h1, h2))"

text \<open>The general byte routine \<^verbatim>\<open>MurmurHash3_x64_128(key, lenBytes, seed)\<close>; the key is
  the list of the \<open>lenBytes\<close> bytes at \<^verbatim>\<open>key\<close>. In the switch, cases 15 to 9 build \<open>k2\<close>
  from \<^verbatim>\<open>tail[8..]\<close> and mix it into \<open>h2\<close>, then cases 8 to 1 build \<open>k1\<close> from
  \<^verbatim>\<open>tail[0..7]\<close> and mix it into \<open>h1\<close>.\<close>

definition MurmurHash3_x64_128 :: "u8 list \<Rightarrow> u64 \<Rightarrow> u128" where
  "MurmurHash3_x64_128 data seed =
    (let lenBytes = length data;
         nblocks = lenBytes div 16;
         (h1, h2) = fold (body_block data) [0..<nblocks] (seed, seed);
         tail = drop (nblocks * 16) data;
         rem = lenBytes mod 16;
         h2 = (if 9 \<le> rem then h2 XOR mix_k2 (xor_bytes tail 8 (rem - 8) 0) else h2);
         h1 = (if 1 \<le> rem then h1 XOR mix_k1 (xor_bytes tail 0 (min rem 8) 0) else h1)
     in finalization (of_nat lenBytes) h1 h2)"

text \<open>The overloads for \<^verbatim>\<open>uint8_t\<close>, \<^verbatim>\<open>uint16_t\<close>, \<^verbatim>\<open>uint32_t\<close> and \<^verbatim>\<open>uint64_t\<close> have
  the same body up to the type of \<open>k\<close> and the value of \<^verbatim>\<open>sizeof(k)\<close>.\<close>

definition MurmurHash3_small :: "u64 \<Rightarrow> u64 \<Rightarrow> u64 \<Rightarrow> u128" where
  "MurmurHash3_small k sizeof_k seed =
    (let h1 = seed; h2 = seed;
         k1 = 0;
         k1 = k1 XOR k;
         k1 = mix_k1 k1;
         h1 = h1 XOR k1
     in finalization sizeof_k h1 h2)"

definition MurmurHash3_x64_128_u8 :: "u8 \<Rightarrow> u64 \<Rightarrow> u128" where
  "MurmurHash3_x64_128_u8 k seed = MurmurHash3_small (ucast k) 1 seed"

definition MurmurHash3_x64_128_u16 :: "u16 \<Rightarrow> u64 \<Rightarrow> u128" where
  "MurmurHash3_x64_128_u16 k seed = MurmurHash3_small (ucast k) 2 seed"

definition MurmurHash3_x64_128_u32 :: "u32 \<Rightarrow> u64 \<Rightarrow> u128" where
  "MurmurHash3_x64_128_u32 k seed = MurmurHash3_small (ucast k) 4 seed"

definition MurmurHash3_x64_128_u64 :: "u64 \<Rightarrow> u64 \<Rightarrow> u128" where
  "MurmurHash3_x64_128_u64 k seed = MurmurHash3_small (ucast k) 8 seed"

definition MurmurHash3_x64_128_u128 :: "u128 \<Rightarrow> u64 \<Rightarrow> u128" where
  "MurmurHash3_x64_128_u128 k seed =
    (let h1 = seed; h2 = seed;
         k1 = ucast k;
         k2 = ucast (drop_bit 64 k);
         k1 = mix_k1 k1;
         h1 = h1 XOR k1;
         h1 = rotl64 h1 27;
         h1 = h1 + h2;
         h1 = h1 * 5 + 0x52dce729;
         k2 = mix_k2 k2;
         h2 = h2 XOR k2;
         h2 = rotl64 h2 31;
         h2 = h2 + h1;
         h2 = h2 * 5 + 0x38495ab5
     in finalization 16 h1 h2)"

text \<open>The little-endian byte representation of a key of \<open>n\<close> bytes.\<close>

definition le_bytes :: "nat \<Rightarrow> 'a::len word \<Rightarrow> u8 list" where
  "le_bytes n k = map (\<lambda>i. ucast (drop_bit (8 * i) k)) [0..<n]"

section \<open>Hashing of keys (include/hash.hpp)\<close>

definition kSeed :: u64 where "kSeed = 9001"

text \<open>A \<^verbatim>\<open>float\<close> or \<^verbatim>\<open>double\<close> key is read through its object representation
  (\<^verbatim>\<open>*reinterpret_cast<const uint32_t*>(&f)\<close>), so the model takes the bit pattern.
  \<open>kMask\<close> is \<^verbatim>\<open>std::numeric_limits<int32_t>::max()\<close>, all bits but the sign bit.\<close>

definition fp_hash_bits_float :: "u32 \<Rightarrow> u32" where
  "fp_hash_bits_float i = (let kMask = 0x7FFFFFFF in if i AND kMask \<noteq> 0 then i else 0)"

definition fp_hash_bits_double :: "u64 \<Rightarrow> u64" where
  "fp_hash_bits_double i =
     (let kMask = 0x7FFFFFFFFFFFFFFF in if i AND kMask \<noteq> 0 then i else 0)"

text \<open>\<^verbatim>\<open>detail::Hash<T>(key, seed)\<close> at \<open>T = float\<close> and \<open>T = double\<close>.\<close>

definition Hash_float :: "u32 \<Rightarrow> u64 \<Rightarrow> u128" where
  "Hash_float key seed = MurmurHash3_x64_128_u32 (fp_hash_bits_float key) seed"

definition Hash_double :: "u64 \<Rightarrow> u64 \<Rightarrow> u128" where
  "Hash_double key seed = MurmurHash3_x64_128_u64 (fp_hash_bits_double key) seed"


section \<open>Count Sketch (src/cs/cs_final.hpp)\<close>

text \<open>\<^verbatim>\<open>__builtin_ctz\<close> on a 32-bit \<^verbatim>\<open>unsigned int\<close>: the number of trailing zero bits
  (the builtin is undefined at 0, where this gives 32).\<close>

definition builtin_ctz :: "u32 \<Rightarrow> nat" where
  "builtin_ctz x = length (takeWhile (\<lambda>i. \<not> bit x i) [0..<32])"

definition hash_bits :: "nat \<Rightarrow> nat" where
  "hash_bits t = builtin_ctz (of_nat (2 * t))"

text \<open>The two \<^verbatim>\<open>static_assert\<close>s of the class on the template parameters \<open>t\<close> and \<open>d\<close>.\<close>

definition CountSketch_static_asserts :: "nat \<Rightarrow> nat \<Rightarrow> bool" where
  "CountSketch_static_asserts t d \<longleftrightarrow>
     ((of_nat t :: u64) AND (of_nat t - 1) = 0) \<and> hash_bits t * d \<le> 16 * 8"

text \<open>The last four statements of \<^verbatim>\<open>HashExtract\<close>: \<open>h\<close>, \<open>g\<close> and the sign as \<^verbatim>\<open>int64_t\<close>.\<close>

definition split_hashes :: "u32 \<Rightarrow> u32 \<times> u64" where
  "split_hashes hashes =
    (let h = drop_bit 1 hashes;
         g = hashes AND 1;
         sign = (ucast g :: u64) * 2 - 1
     in (h, sign))"

text \<open>\<^verbatim>\<open>HashExtract(hash, j)\<close>; \<open>None\<close> is the instantiation rejected by the
  \<^verbatim>\<open>static_assert\<close> of the last \<^verbatim>\<open>if constexpr\<close> branch.\<close>

definition HashExtract :: "nat \<Rightarrow> nat \<Rightarrow> u128 \<Rightarrow> nat \<Rightarrow> (u32 \<times> u64) option" where
  "HashExtract t d hash j =
    (if hash_bits t * d \<le> 16 * 8 div 2 then
       let lower_hash = (ucast hash :: u64);
           hashes = (ucast (drop_bit (j * hash_bits t) lower_hash mod of_nat t) :: u32)
       in Some (split_hashes hashes)
     else if hash_bits t * d \<le> 16 * 8 then
       let hashes = (ucast (drop_bit (j * hash_bits t) hash mod of_nat t) :: u32)
       in Some (split_hashes hashes)
     else None)"

text \<open>\<^verbatim>\<open>GetCounter(j, h) += sign\<close> on the counter array \<open>C\<close> of \<open>t * d\<close> \<^verbatim>\<open>int64_t\<close>.\<close>

definition add_counter :: "nat \<Rightarrow> u64 list \<Rightarrow> nat \<Rightarrow> u32 \<Rightarrow> u64 \<Rightarrow> u64 list" where
  "add_counter t C j h sign = C[j * t + unat h := C ! (j * t + unat h) + sign]"

text \<open>\<^verbatim>\<open>Insert(const __uint128_t& hash)\<close>: the loop over the rows \<open>j = 0, ..., d - 1\<close>.\<close>

definition CountSketch_Insert :: "nat \<Rightarrow> nat \<Rightarrow> u128 \<Rightarrow> u64 list \<Rightarrow> u64 list option" where
  "CountSketch_Insert t d hash C =
     fold (\<lambda>j acc. case acc of None \<Rightarrow> None
                  | Some C' \<Rightarrow> (case HashExtract t d hash j of None \<Rightarrow> None
                      | Some (h, sign) \<Rightarrow> Some (add_counter t C' j h sign)))
          [0..<d] (Some C)"

text \<open>The row update as the specification words it: with \<open>B = ceil(log2(2t))\<close>, the slice
  \<open>s\<^sub>j = (H >> (j * B)) mod 2t\<close>, the column \<open>h\<^sub>j = s\<^sub>j >> 1\<close> and the sign
  \<open>g\<^sub>j = 2 * (s\<^sub>j & 1) - 1\<close>.\<close>

definition ceil_log2 :: "nat \<Rightarrow> nat" where
  "ceil_log2 n = length (takeWhile (\<lambda>b. 2 ^ b < n) [0..<65])"

definition spec_row_update :: "nat \<Rightarrow> nat \<Rightarrow> nat \<Rightarrow> nat \<times> int" where
  "spec_row_update t H j =
    (let B = ceil_log2 (2 * t);
         s = (H div 2 ^ (j * B)) mod (2 * t);
         h = s div 2;
         g = 2 * int (s mod 2) - 1
     in (h, g))"

text \<open>The specified insert: \<open>C[j * t + h\<^sub>j] += g\<^sub>j\<close> for every row, on unbounded counters.\<close>

definition spec_Insert :: "nat \<Rightarrow> nat \<Rightarrow> nat \<Rightarrow> int list \<Rightarrow> int list" where
  "spec_Insert t d H C =
     fold (\<lambda>j C'. let (h, g) = spec_row_update t H j in C'[j * t + h := C' ! (j * t + h) + g])
          [0..<d] C"


section \<open>Hash128: the fixed-width overloads against the byte routine\<close>

lemma bit_push_byte:
  "bit (push_bit (8 * n) (ucast (b::u8)) :: u64) m \<longleftrightarrow>
     (8 * n \<le> m \<and> m < 8 * n + 8 \<and> m < 64 \<and> bit b (m - 8 * n))"
  by (auto simp add: bit_simps dest: bit_imp_le_length)

lemma xor_step_lo:
  "m < 8 * n \<Longrightarrow>
   ((A \<noteq> (8 * n \<le> m \<and> m < 8 * n + 8 \<and> m < 64 \<and> P)) \<noteq> (m < 64 \<and> m < 8 * n \<and> Q))
   = (A \<noteq> (m < 64 \<and> m < 8 * Suc n \<and> Q))"
  by auto

lemma xor_step_mid:
  "8 * n \<le> m \<Longrightarrow> m < 8 * n + 8 \<Longrightarrow>
   ((A \<noteq> (8 * n \<le> m \<and> m < 8 * n + 8 \<and> m < 64 \<and> P)) \<noteq> (m < 64 \<and> m < 8 * n \<and> Q))
   = (A \<noteq> (m < 64 \<and> m < 8 * Suc n \<and> P))"
  by auto

lemma xor_step_hi:
  "8 * n + 8 \<le> m \<Longrightarrow>
   ((A \<noteq> (8 * n \<le> m \<and> m < 8 * n + 8 \<and> m < 64 \<and> P)) \<noteq> (m < 64 \<and> m < 8 * n \<and> Q))
   = (A \<noteq> (m < 64 \<and> m < 8 * Suc n \<and> Q))"
  by auto

text \<open>Bit \<open>m\<close> of the word assembled by \<open>xor_bytes\<close> is bit \<open>m mod 8\<close> of byte \<open>m div 8\<close>.\<close>

lemma bit_xor_bytes:
  "bit (xor_bytes tail base n k) m \<longleftrightarrow>
     (bit k m \<noteq> (m < 64 \<and> m < 8 * n \<and> bit (tail ! (base + m div 8)) (m mod 8)))"
proof (induction n arbitrary: k)
  case 0
  then show ?case by simp
next
  case (Suc n)
  let ?b = "tail ! (base + n)"
  have step: "bit (xor_bytes tail base (Suc n) k) m \<longleftrightarrow>
      ((bit k m \<noteq> (8 * n \<le> m \<and> m < 8 * n + 8 \<and> m < 64 \<and> bit ?b (m - 8 * n)))
        \<noteq> (m < 64 \<and> m < 8 * n \<and> bit (tail ! (base + m div 8)) (m mod 8)))"
    by (simp only: xor_bytes.simps Suc.IH bit_xor_iff bit_push_byte)
  show ?case
  proof (cases "m < 8 * n")
    case True
    then show ?thesis unfolding step by (rule xor_step_lo)
  next
    case False
    show ?thesis
    proof (cases "m < 8 * n + 8")
      case True
      from False True have d: "m div 8 = n"
        by (intro div_nat_eqI) simp_all
      have r: "m mod 8 = m - 8 * n"
        using minus_mult_div_eq_mod[of m 8] d by simp
      from False have le: "8 * n \<le> m" by simp
      show ?thesis unfolding step d r by (rule xor_step_mid[OF le True])
    next
      case f2: False
      then have "8 * n + 8 \<le> m" by simp
      then show ?thesis unfolding step by (rule xor_step_hi)
    qed
  qed
qed

lemma nth_le_bytes: "i < n \<Longrightarrow> le_bytes n k ! i = ucast (drop_bit (8 * i) k)"
  by (simp add: le_bytes_def)

lemma length_le_bytes: "length (le_bytes n k) = n"
  by (simp add: le_bytes_def)

lemma bit_ucast_u8: "bit (ucast (w::'a::len word) :: u8) j \<longleftrightarrow> j < 8 \<and> bit w j"
  by (auto simp add: bit_ucast_iff dest: bit_imp_le_length)

lemma xor_bytes_le_bytes:
  fixes k :: "'a::len word"
  assumes "base + n \<le> N" "n \<le> 8"
  shows "xor_bytes (le_bytes N k) base n 0 = ucast (take_bit (8 * n) (drop_bit (8 * base) k))"
proof (rule bit_word_eqI)
  fix m assume m: "m < LENGTH(64)"
  then have m64: "m < 64" by simp
  have rhs: "bit (ucast (take_bit (8 * n) (drop_bit (8 * base) k)) :: u64) m
       \<longleftrightarrow> m < 8 * n \<and> bit k (8 * base + m)"
    using m64 by (simp add: bit_ucast_iff bit_take_bit_iff bit_drop_bit_eq)
  show "bit (xor_bytes (le_bytes N k) base n 0) m
        = bit (ucast (take_bit (8 * n) (drop_bit (8 * base) k)) :: u64) m"
  proof (cases "m < 8 * n")
    case True
    then have d: "m div 8 < n" by (simp add: less_mult_imp_div_less mult.commute)
    then have i: "base + m div 8 < N" using assms by linarith
    have e: "8 * (base + m div 8) + m mod 8 = 8 * base + m"
      by (simp add: algebra_simps)
    have m8: "m mod 8 < 8" by simp
    have "bit (le_bytes N k ! (base + m div 8)) (m mod 8) \<longleftrightarrow> bit k (8 * base + m)"
      unfolding nth_le_bytes[OF i] bit_ucast_u8 bit_drop_bit_eq
      using m8 e by (simp add: add.commute)
    then show ?thesis unfolding rhs bit_xor_bytes using True m64 by simp
  next
    case False
    then show ?thesis unfolding rhs bit_xor_bytes by simp
  qed
qed

lemma MurmurHash3_small_bytes:
  fixes k :: "'a::len word"
  assumes n: "1 \<le> n" "n \<le> 8" and len: "LENGTH('a) = 8 * n"
  shows "MurmurHash3_x64_128 (le_bytes n k) seed = MurmurHash3_small (ucast k) (of_nat n) seed"
proof -
  have tk: "take_bit (8 * n) k = k"
    using len by (metis take_bit_length_eq)
  have x: "xor_bytes (le_bytes n k) 0 n 0 = ucast k"
    using xor_bytes_le_bytes[of 0 n n k] n tk by simp
  have r: "n div 16 = 0" "n mod 16 = n" "min n 8 = n" "\<not> 9 \<le> n" using n by simp_all
  show ?thesis
    using n by (simp add: MurmurHash3_x64_128_def MurmurHash3_small_def length_le_bytes r x)
qed

lemma ucast_take_bit_64: "(ucast (take_bit 64 (w::'a::len word)) :: u64) = ucast w"
  by (rule bit_word_eqI) (simp add: bit_ucast_iff bit_take_bit_iff)

lemma MurmurHash3_u128_bytes:
  "MurmurHash3_x64_128 (le_bytes 16 (k::u128)) seed = MurmurHash3_x64_128_u128 k seed"
proof -
  have k1: "getblock64 (le_bytes 16 k) 0 = ucast k"
    unfolding getblock64_def using xor_bytes_le_bytes[of 0 8 16 k]
    by (simp add: ucast_take_bit_64)
  have k2: "getblock64 (le_bytes 16 k) 8 = ucast (drop_bit 64 k)"
    unfolding getblock64_def using xor_bytes_le_bytes[of 8 8 16 k]
    by (simp add: ucast_take_bit_64)
  show ?thesis
    by (simp add: MurmurHash3_x64_128_def MurmurHash3_x64_128_u128_def length_le_bytes
        body_block_def k1 k2 Let_def)
qed

text \<open>
  Claim C6. For a key of 1, 2, 4, 8 or 16 bytes and every seed, the unrolled overload of
  \<open>MurmurHash3_x64_128\<close> for that width returns the same 128-bit value as the general byte
  routine run on the little-endian bytes of the key with the same seed.
\<close>

theorem C6_fixed_width_overloads_equal_byte_routine:
  "MurmurHash3_x64_128_u8 k8 seed = MurmurHash3_x64_128 (le_bytes 1 k8) seed
   \<and> MurmurHash3_x64_128_u16 k16 seed = MurmurHash3_x64_128 (le_bytes 2 k16) seed
   \<and> MurmurHash3_x64_128_u32 k32 seed = MurmurHash3_x64_128 (le_bytes 4 k32) seed
   \<and> MurmurHash3_x64_128_u64 k64 seed = MurmurHash3_x64_128 (le_bytes 8 k64) seed
   \<and> MurmurHash3_x64_128_u128 k128 seed = MurmurHash3_x64_128 (le_bytes 16 k128) seed"
proof -
  have "MurmurHash3_x64_128 (le_bytes 1 k8) seed = MurmurHash3_x64_128_u8 k8 seed"
    using MurmurHash3_small_bytes[of 1 k8 seed] by (simp add: MurmurHash3_x64_128_u8_def)
  moreover have "MurmurHash3_x64_128 (le_bytes 2 k16) seed = MurmurHash3_x64_128_u16 k16 seed"
    using MurmurHash3_small_bytes[of 2 k16 seed] by (simp add: MurmurHash3_x64_128_u16_def)
  moreover have "MurmurHash3_x64_128 (le_bytes 4 k32) seed = MurmurHash3_x64_128_u32 k32 seed"
    using MurmurHash3_small_bytes[of 4 k32 seed] by (simp add: MurmurHash3_x64_128_u32_def)
  moreover have "MurmurHash3_x64_128 (le_bytes 8 k64) seed = MurmurHash3_x64_128_u64 k64 seed"
    using MurmurHash3_small_bytes[of 8 k64 seed] by (simp add: MurmurHash3_x64_128_u64_def)
  ultimately show ?thesis
    by (simp add: MurmurHash3_u128_bytes)
qed

section \<open>Hashing of floating-point keys\<close>

lemma and_mask_top_eq_0_iff:
  fixes i :: "'a::len word"
  shows "i AND mask (LENGTH('a) - 1) = 0 \<longleftrightarrow> i = 0 \<or> i = 2 ^ (LENGTH('a) - 1)"
proof -
  let ?n = "LENGTH('a) - 1"
  have low: "i AND mask ?n = 0 \<longleftrightarrow> (\<forall>m < ?n. \<not> bit i m)"
    by (auto simp add: bit_eq_iff bit_and_iff bit_mask_iff dest: bit_imp_le_length)
  show ?thesis
  proof
    assume z: "i AND mask ?n = 0"
    show "i = 0 \<or> i = 2 ^ ?n"
    proof (cases "bit i ?n")
      case True
      have "i = 2 ^ ?n"
      proof (rule bit_word_eqI)
        fix m assume "m < LENGTH('a)"
        then have "m < ?n \<or> m = ?n" by linarith
        then show "bit i m = bit (2 ^ ?n :: 'a word) m"
          using True z low by (auto simp add: bit_exp_iff)
      qed
      then show ?thesis ..
    next
      case False
      have "i = 0"
      proof (rule bit_word_eqI)
        fix m assume "m < LENGTH('a)"
        then have "m < ?n \<or> m = ?n" by linarith
        then show "bit i m = bit (0 :: 'a word) m"
          using False z low by auto
      qed
      then show ?thesis ..
    qed
  next
    assume "i = 0 \<or> i = 2 ^ ?n"
    then show "i AND mask ?n = 0"
      unfolding low by (auto simp add: bit_exp_iff)
  qed
qed

lemma and_mask31_eq_0_iff: "(i::u32) AND 0x7FFFFFFF = 0 \<longleftrightarrow> i = 0 \<or> i = 0x80000000"
  using and_mask_top_eq_0_iff[of i] by (simp add: mask_eq_exp_minus_1)

lemma and_mask63_eq_0_iff:
  "(i::u64) AND 0x7FFFFFFFFFFFFFFF = 0 \<longleftrightarrow> i = 0 \<or> i = 0x8000000000000000"
  using and_mask_top_eq_0_iff[of i] by (simp add: mask_eq_exp_minus_1)

lemma fp_hash_bits_float_eq: "fp_hash_bits_float i = (if i = 0x80000000 then 0 else i)"
  by (simp add: fp_hash_bits_float_def and_mask31_eq_0_iff)

lemma fp_hash_bits_double_eq:
  "fp_hash_bits_double i = (if i = 0x8000000000000000 then 0 else i)"
  by (simp add: fp_hash_bits_double_def and_mask63_eq_0_iff)

text \<open>
  Claim C2, as stated: the hash of a floating-point key is the hash of its bit pattern with
  the sign bit masked off. It fails at \<open>-1.0f\<close> (bits \<open>0xBF800000\<close>) with the default
  seed: the code hashes the pattern with its sign bit, not \<open>0x3F800000\<close>.
\<close>

theorem C2_sign_bit_masked_counterexample:
  "fp_hash_bits_float 0xBF800000 = 0xBF800000
   \<and> Hash_float 0xBF800000 kSeed \<noteq> MurmurHash3_x64_128_u32 (0xBF800000 AND 0x7FFFFFFF) kSeed"
  by code_simp

text \<open>
  Claim C2, amended: the mask is only the test for zero. The two zeros \<open>+0\<close> and \<open>-0\<close> are
  hashed as the all-zero pattern; every other key, negative ones included, is hashed by
  its unchanged bit pattern (sign bit kept), for \<open>float\<close> and for \<open>double\<close>.
\<close>

theorem C2_float_hash_canonicalises_zero_only:
  "Hash_float x seed = MurmurHash3_x64_128_u32 (if x = 0x80000000 then 0 else x) seed
   \<and> Hash_double y seed
       = MurmurHash3_x64_128_u64 (if y = 0x8000000000000000 then 0 else y) seed"
  by (simp only: Hash_float_def Hash_double_def fp_hash_bits_float_eq fp_hash_bits_double_eq)

section \<open>Count Sketch: the row update\<close>

text \<open>
  Claim C1. The row update is specified with the slice \<open>s\<^sub>j = (H >> (j * B)) mod 2t\<close>.
  \<open>HashExtract\<close> reduces the shifted hash modulo \<open>t\<close>, not \<open>2t\<close>. With the default
  parameters \<open>t = 2048\<close>, \<open>d = 5\<close> and the hash \<open>H = 2048\<close>, row 0 is specified to update
  column 1024 and the code updates column 0. With \<open>t = 4\<close>, \<open>d = 3\<close> and \<open>H = 4\<close>, inserting
  into zeroed counters is specified to decrement \<open>C[2]\<close> and the code decrements \<open>C[0]\<close>.
\<close>

theorem C1_HashExtract_reduces_modulo_t:
  "CountSketch_static_asserts 2048 5
   \<and> HashExtract 2048 5 2048 0 = Some (0, - 1)
   \<and> spec_row_update 2048 2048 0 = (1024, - 1)
   \<and> CountSketch_static_asserts 4 3
   \<and> map_option (map sint) (CountSketch_Insert 4 3 4 (replicate 12 0))
        = Some [- 1, 0, 0, 0, - 1, 0, 0, 0, - 1, 0, 0, 0]
   \<and> spec_Insert 4 3 4 (replicate 12 0) = [0, 0, - 1, 0, - 1, 0, 0, 0, - 1, 0, 0, 0]"
proof -
  have code: "CountSketch_static_asserts 2048 5
      \<and> HashExtract 2048 5 2048 0 = Some (0, - 1)
      \<and> CountSketch_static_asserts 4 3
      \<and> map_option (map sint) (CountSketch_Insert 4 3 4 (replicate 12 0))
           = Some [- 1, 0, 0, 0, - 1, 0, 0, 0, - 1, 0, 0, 0]"
    by code_simp
  have B: "ceil_log2 4096 = 12"
    by code_simp
  have row: "spec_row_update 2048 2048 0 = (1024, - 1)"
    by (simp add: spec_row_update_def B)
  have ins: "spec_Insert 4 3 4 (replicate 12 0) = [0, 0, - 1, 0, - 1, 0, 0, 0, - 1, 0, 0, 0]"
    by code_simp
  from code row ins show ?thesis
    by blast
qed


end
